theory Spec2Isabelle
  imports Main
begin

section \<open>Data model of edixml.py\<close>

text \<open>
  Python's \<open>str\<close> is modelled by \<open>string\<close>: one \<open>char\<close> per character of the
  text (Isabelle's \<open>char\<close> has 256 values, so the model covers the characters with a code
  point below 256). \<open>bytes\<close> is a list of 8-bit values, again \<open>char list\<close>.
  Every exception the source can raise is a value of \<open>error\<close>; the two \<open>SyntaxError\<close>s
  of the source are told apart by their message.
\<close>

type_synonym bytes = "char list"

datatype error =
    AssertionError
  | ValueError
  | UnicodeDecodeError
  | UnicodeEncodeError
  | UnicodeError
  | RegexError
  | ExpectedSeparator nat    \<comment> \<open>SyntaxError: Segment i+1: Expected datalement-separator\<close>
  | UnknownSegment string    \<comment> \<open>SyntaxError: Unknown segment\<close>
  | IndexError
  | KeyError
  | TypeError

record delimiters =
  component_separator :: char
  dataelement_separator :: char
  decimal_mark :: char
  release_char :: char
  segment_terminator :: char
  newline :: char
  carriage_return :: char

definition SPACE :: char where
  "SPACE = CHR '' ''"

definition default_delimiters :: delimiters where
  "default_delimiters =
     \<lparr> component_separator = CHR '':'',
       dataelement_separator = CHR ''+'',
       decimal_mark = CHR ''.'',
       release_char = CHR ''?'',
       segment_terminator = CHR 0x27,
       newline = CHR 0x0A,
       carriage_return = CHR 0x0D \<rparr>"

text \<open>
  A segment is the two-element list \<open>[tag, body]\<close> of the source. The body is a list of
  single characters (what the parsers build for \<open>UNA\<close>) or a list of data elements, each
  a list of component strings.
\<close>

datatype body = Chars "char list" | Elems "string list list"

type_synonym segment = "string \<times> body"

text \<open>
  The emitter iterates over the body without looking at its type: iterating over a
  one-character string yields that string, so a list of characters behaves as a list of
  data elements with one one-character component each.
\<close>

fun elems_of :: "body \<Rightarrow> string list list" where
  "elems_of (Elems es) = es"
| "elems_of (Chars cs) = map (\<lambda>c. [[c]]) cs"

definition ENCODINGS :: "(string \<times> string) list" where
  "ENCODINGS =
     [(''UNOA'', ''ascii''), (''UNOB'', ''ascii''), (''UNOC'', ''iso8859-1''),
      (''UNOD'', ''iso8859-2''), (''UNOE'', ''iso8859-5''), (''UNOF'', ''iso8859-7''),
      (''UNOG'', ''iso8859-3''), (''UNOH'', ''iso8859-4''), (''UNOI'', ''iso8859-6''),
      (''UNOJ'', ''iso8859-8''), (''UNOK'', ''iso8859-9''), (''UNOL'', ''iso8859-15''),
      (''UNOX'', ''iso2022_jp_ext''), (''UNOY'', ''utf8''), (''UNOW'', ''utf16'')]"

definition SEGMENTS :: "string list" where
  "SEGMENTS =
   [''ADR'', ''AGR'', ''AJT'', ''ALC'', ''ALI'', ''APP'', ''APR'', ''ARD'', ''ARR'', ''ASI'', ''ATT'',
    ''AUT'', ''BAS'', ''BGM'', ''BII'', ''BUS'', ''CAV'', ''CCD'', ''CCI'', ''CDI'', ''CDS'', ''CDV'',
    ''CED'', ''CIN'', ''CLA'', ''CLI'', ''CMP'', ''CNI'', ''CNT'', ''COD'', ''COM'', ''COT'', ''CPI'',
    ''CPS'', ''CPT'', ''CST'', ''CTA'', ''CUX'', ''DAM'', ''DFN'', ''DGS'', ''DII'', ''DIM'', ''DLI'',
    ''DLM'', ''DMS'', ''DOC'', ''DRD'', ''DSG'', ''DSI'', ''DTM'', ''EDT'', ''EFI'', ''ELM'', ''ELU'',
    ''ELV'', ''EMP'', ''EQA'', ''EQD'', ''EQN'', ''ERC'', ''ERP'', ''EVE'', ''FCA'', ''FII'', ''FNS'',
    ''FNT'', ''FOR'', ''FSQ'', ''FTX'', ''GDS'', ''GEI'', ''GID'', ''GIN'', ''GIR'', ''GOR'', ''GPO'',
    ''GRU'', ''HAN'', ''HYN'', ''ICD'', ''IDE'', ''IFD'', ''IHC'', ''IMD'', ''IND'', ''INP'', ''INV'',
    ''IRQ'', ''LAN'', ''LIN'', ''LOC'', ''MEA'', ''MEM'', ''MKS'', ''MOA'', ''MSG'', ''MTD'', ''NAD'',
    ''NAT'', ''PAC'', ''PAI'', ''PAS'', ''PCC'', ''PCD'', ''PCI'', ''PDI'', ''PER'', ''PGI'', ''PIA'',
    ''PNA'', ''POC'', ''PRC'', ''PRI'', ''PRV'', ''PSD'', ''PTY'', ''PYT'', ''QRS'', ''QTY'', ''QUA'',
    ''QVR'', ''RCS'', ''REL'', ''RFF'', ''RJL'', ''RNG'', ''ROD'', ''RSL'', ''RTE'', ''SAL'', ''SCC'',
    ''SCD'', ''SEG'', ''SEL'', ''SEQ'', ''SFI'', ''SGP'', ''SGU'', ''SPR'', ''SPS'', ''STA'', ''STC'',
    ''STG'', ''STS'', ''TAX'', ''TCC'', ''TDT'', ''TEM'', ''TMD'', ''TMP'', ''TOD'', ''TPL'', ''TRU'',
    ''TSR'', ''UCD'', ''UCF'', ''UCI'', ''UCM'', ''UCS'', ''UGH'', ''UGT'', ''UIB'', ''UIH'', ''UIR'',
    ''UIT'', ''UIZ'', ''UNB'', ''UNE'', ''UNG'', ''UNH'', ''UNO'', ''UNP'', ''UNS'', ''UNT'', ''UNZ'',
    ''USA'', ''USB'', ''USC'', ''USD'', ''USE'', ''USF'', ''USH'', ''USL'', ''USR'', ''UST'', ''USU'',
    ''USX'', ''USY'', ''VLI'']"

text \<open>
  \<open>str.encode\<close> and \<open>bytes.decode\<close> belong to Python's codec library, not to this
  program: they are a parameter of the model. \<open>None\<close> is the \<open>UnicodeError\<close> the
  library raises.
\<close>

record codec =
  encode :: "string \<Rightarrow> string \<Rightarrow> bytes option"
  decode :: "string \<Rightarrow> bytes \<Rightarrow> string option"

text \<open>
  The codec of the examples with 7-bit data: under every encoding name but \<open>utf16\<close>,
  data made of 7-bit characters is encoded and decoded unchanged, as Python does under
  \<open>ascii\<close>, \<open>utf8\<close> and the \<open>iso8859\<close> family; other data is left out of this
  instance (\<open>None\<close>, also where Python has a value), and the examples that use it
  stay within 7-bit data and away from \<open>utf16\<close>.
\<close>

definition is_ascii :: "char \<Rightarrow> bool" where
  "is_ascii c = (of_char c < (128::nat))"

definition ascii_codec :: codec where
  "ascii_codec =
     \<lparr> encode = (\<lambda>name s. if name \<noteq> ''utf16'' \<and> list_all is_ascii s then Some s else None),
       decode = (\<lambda>name b. if name \<noteq> ''utf16'' \<and> list_all is_ascii b then Some b else None) \<rparr>"








section \<open>String operations used by the codec\<close>

text \<open>\<open>sep.join(xs)\<close>\<close>

fun join :: "'a list \<Rightarrow> 'a list list \<Rightarrow> 'a list" where
  "join sep [] = []"
| "join sep [x] = x"
| "join sep (x # y # ys) = x @ sep @ join sep (y # ys)"

text \<open>\<open>s.replace(x, new)\<close> for a one-character \<open>x\<close>\<close>

definition replace_char :: "char \<Rightarrow> string \<Rightarrow> string \<Rightarrow> string" where
  "replace_char x new s = concat (map (\<lambda>c. if c = x then new else [c]) s)"

text \<open>
  \<open>s.replace(a + b, b)\<close> for characters \<open>a\<close>, \<open>b\<close>: occurrences are replaced from the
  left and do not overlap.
\<close>

fun replace_pair :: "char \<Rightarrow> char \<Rightarrow> string \<Rightarrow> string" where
  "replace_pair a b [] = []"
| "replace_pair a b [x] = [x]"
| "replace_pair a b (x # y # s) =
     (if x = a \<and> y = b then b # replace_pair a b s else x # replace_pair a b (y # s))"

text \<open>\<open>data.index(sub)\<close>; \<open>None\<close> is the \<open>ValueError\<close> of a missing substring.\<close>

fun index_of :: "'a list \<Rightarrow> 'a list \<Rightarrow> nat option" where
  "index_of sub [] = (if sub = [] then Some 0 else None)"
| "index_of sub (x # xs) =
     (if take (length sub) (x # xs) = sub then Some 0 else map_option Suc (index_of sub xs))"

text \<open>
  \<open>re.split('(?<!rc)d', s)\<close>: the string is cut at every \<open>d\<close> that is not directly
  preceded by \<open>rc\<close>. The flag tells whether the character before the rest of the string
  is \<open>rc\<close>; the look-behind reads the subject string, so it is \<open>False\<close> at the start.
\<close>

fun push :: "'a \<Rightarrow> 'a list list \<Rightarrow> 'a list list" where
  "push c [] = [[c]]"
| "push c (p # ps) = (c # p) # ps"

fun split_lb :: "char \<Rightarrow> char \<Rightarrow> bool \<Rightarrow> string \<Rightarrow> string list" where
  "split_lb rc d e [] = [[]]"
| "split_lb rc d e (c # s) =
     (if c = d \<and> \<not> e then [] # split_lb rc d (c = rc) s
      else push c (split_lb rc d (c = rc) s))"

definition re_split :: "char \<Rightarrow> char \<Rightarrow> string \<Rightarrow> string list" where
  "re_split rc d s = split_lb rc d False s"

text \<open>
  \<open>re.sub('(?<!rc)st cr?nl', st, s)\<close>: a terminator not preceded by \<open>rc\<close> and followed
  by an optional \<open>cr\<close> and a \<open>nl\<close> loses that line break. Matches are found from the left;
  after a match the scan goes on behind it, where the preceding character is \<open>nl\<close>.
\<close>

function sub_lb :: "char \<Rightarrow> char \<Rightarrow> char \<Rightarrow> char \<Rightarrow> bool \<Rightarrow> string \<Rightarrow> string" where
  "sub_lb rc st cr nl e [] = []"
| "sub_lb rc st cr nl e (c # s) =
     (if c = st \<and> \<not> e \<and> take 2 s = [cr, nl] then st # sub_lb rc st cr nl (nl = rc) (drop 2 s)
      else if c = st \<and> \<not> e \<and> take 1 s = [nl] then st # sub_lb rc st cr nl (nl = rc) (drop 1 s)
      else c # sub_lb rc st cr nl (c = rc) s)"
  by pat_completeness auto
termination
  by (relation "measure (\<lambda>(rc, st, cr, nl, e, s). length s)") auto

text \<open>
  The replacement string of \<open>re.sub\<close> is a template: a backslash in it starts an escape,
  and a template that is a lone backslash is rejected before any match is tried.
\<close>

definition re_sub :: "char \<Rightarrow> char \<Rightarrow> char \<Rightarrow> char \<Rightarrow> string \<Rightarrow> error + string" where
  "re_sub rc st cr nl s =
     (if st = CHR 0x5C then Inl RegexError else Inr (sub_lb rc st cr nl False s))"

section \<open>parse_edi\<close>

text \<open>
  The keyword arguments of the source are the delimiter record and \<open>default_encoding\<close>.
  With \<open>warn_invalid_characters\<close> the source prints warnings about the decoded text;
  they do not change the value returned and are left out.
\<close>

definition unique_chars :: "delimiters \<Rightarrow> bool" where
  "unique_chars D =
     distinct [component_separator D, dataelement_separator D, decimal_mark D,
               release_char D, segment_terminator D, newline D, carriage_return D]"

text \<open>
  Sniffing the encoding. \<open>unb_index\<close> is \<open>False\<close> when \<open>UNB\<close> is missing, and the test
  \<open>if unb_index:\<close> is the truth value of the index.
\<close>

definition sniff_encoding :: "codec \<Rightarrow> string \<Rightarrow> bytes \<Rightarrow> error + string" where
  "sniff_encoding cd default_encoding data =
     (case index_of ''UNB'' data of
        None \<Rightarrow> Inr default_encoding
      | Some unb_index \<Rightarrow>
          if unb_index \<noteq> 0 then
            (case index_of ''UNO'' (drop unb_index data) of
               None \<Rightarrow> Inl ValueError
             | Some uno_offset \<Rightarrow>
                 (case decode cd ''ascii'' (take 4 (drop (unb_index + uno_offset) data)) of
                    None \<Rightarrow> Inl UnicodeDecodeError
                  | Some uno \<Rightarrow> Inr uno))
          else Inr default_encoding)"

text \<open>The fallback loop over the other encodings of the table, in the table's order.\<close>

fun try_encodings :: "codec \<Rightarrow> string \<Rightarrow> (string \<times> string) list \<Rightarrow> bytes \<Rightarrow> error + string" where
  "try_encodings cd uno [] data = Inl UnicodeError"
| "try_encodings cd uno ((encoding, name) # rest) data =
     (if encoding = uno then try_encodings cd uno rest data
      else case decode cd name data of
             Some content \<Rightarrow> Inr content
           | None \<Rightarrow> try_encodings cd uno rest data)"

definition decode_content :: "codec \<Rightarrow> string \<Rightarrow> bytes \<Rightarrow> error + string" where
  "decode_content cd default_encoding data =
     (case sniff_encoding cd default_encoding data of
        Inl e \<Rightarrow> Inl e
      | Inr uno \<Rightarrow>
          (case map_of ENCODINGS uno of
             None \<Rightarrow> Inl ValueError
           | Some name \<Rightarrow>
               (case decode cd name data of
                  Some content \<Rightarrow> Inr content
                | None \<Rightarrow> try_encodings cd uno ENCODINGS data)))"

text \<open>
  The delimiters announced by a leading \<open>UNA\<close>: the six characters \<open>content[3:9]\<close> are
  unpacked, the fifth is dropped. Fewer than six characters cannot be unpacked.
\<close>

definition una_delimiters :: "delimiters \<Rightarrow> string \<Rightarrow> error + delimiters" where
  "una_delimiters D content =
     (if take 3 content = ''UNA'' then
        (case take 6 (drop 3 content) of
           [a, b, c, d, _, e] \<Rightarrow>
             Inr (D\<lparr> component_separator := a, dataelement_separator := b, decimal_mark := c,
                     release_char := d, segment_terminator := e \<rparr>)
         | _ \<Rightarrow> Inl ValueError)
      else Inr D)"

definition tokenise :: "delimiters \<Rightarrow> string \<Rightarrow> error + string list" where
  "tokenise D content =
     (case re_sub (release_char D) (segment_terminator D) (carriage_return D) (newline D) content of
        Inl e \<Rightarrow> Inl e
      | Inr joined \<Rightarrow>
          Inr (butlast (map (replace_pair (release_char D) (segment_terminator D))
                            (re_split (release_char D) (segment_terminator D) joined))))"

definition parse_elements :: "delimiters \<Rightarrow> string \<Rightarrow> string list list" where
  "parse_elements D data_elements =
     map (\<lambda>data_element.
            map (replace_pair (release_char D) (component_separator D))
                (re_split (release_char D) (component_separator D) data_element))
         (map (replace_pair (release_char D) (dataelement_separator D))
              (re_split (release_char D) (dataelement_separator D) data_elements))"

text \<open>The body of the loop over the lines: line \<open>i\<close> gives one segment or fails.\<close>

definition parse_line :: "delimiters \<Rightarrow> nat \<Rightarrow> string \<Rightarrow> error + segment" where
  "parse_line D i line =
     (if take 3 line = ''UNA'' then
        (if i \<noteq> 0 then Inl AssertionError
         else Inr (''UNA'', Chars [component_separator D, dataelement_separator D,
                                   decimal_mark D, release_char D, SPACE,
                                   segment_terminator D]))
      else if length line < 4 then Inl IndexError
      else if line ! 3 \<noteq> dataelement_separator D then Inl (ExpectedSeparator (i + 1))
      else if take 3 line \<notin> set SEGMENTS then Inl (UnknownSegment (take 3 line))
      else Inr (take 3 line, Elems (parse_elements D (drop 4 line))))"

text \<open>The loop; \<open>i\<close> is the index of the first line of the list.\<close>

fun parse_lines :: "delimiters \<Rightarrow> nat \<Rightarrow> string list \<Rightarrow> error + segment list" where
  "parse_lines D i [] = Inr []"
| "parse_lines D i (line # rest) =
     (case parse_line D i line of
        Inl e \<Rightarrow> Inl e
      | Inr segment \<Rightarrow>
          (case parse_lines D (Suc i) rest of
             Inl e \<Rightarrow> Inl e
           | Inr segments \<Rightarrow> Inr (segment # segments)))"

definition parse_content :: "delimiters \<Rightarrow> string \<Rightarrow> error + segment list" where
  "parse_content D content =
     (case una_delimiters D content of
        Inl e \<Rightarrow> Inl e
      | Inr D' \<Rightarrow>
          if \<not> unique_chars D' then Inl AssertionError
          else (case tokenise D' content of
                  Inl e \<Rightarrow> Inl e
                | Inr lines \<Rightarrow> parse_lines D' 0 lines))"

definition parse_edi :: "codec \<Rightarrow> bytes \<Rightarrow> delimiters \<Rightarrow> string \<Rightarrow> error + segment list" where
  "parse_edi cd data D default_encoding =
     (case decode_content cd default_encoding data of
        Inl e \<Rightarrow> Inl e
      | Inr content \<Rightarrow> parse_content D content)"

section \<open>make_edi\<close>

definition escape_component :: "delimiters \<Rightarrow> string \<Rightarrow> string" where
  "escape_component D c =
     replace_char (segment_terminator D) [release_char D, segment_terminator D]
       (replace_char (component_separator D) [release_char D, component_separator D]
         (replace_char (dataelement_separator D) [release_char D, dataelement_separator D] c))"

text \<open>The inner loop: a separator follows every data element but the last.\<close>

fun emit_elements :: "delimiters \<Rightarrow> string list list \<Rightarrow> string list" where
  "emit_elements D [] = []"
| "emit_elements D [components] =
     [join [component_separator D] (map (escape_component D) components)]"
| "emit_elements D (components # rest) =
     join [component_separator D] (map (escape_component D) components)
       # [dataelement_separator D] # emit_elements D rest"

text \<open>
  The loop over the segments: \<open>n\<close> is \<open>len(segments)\<close> and \<open>s_i\<close> the index of the first
  segment of the list. The result is the list of strings appended by the loop.
\<close>

fun emit_segments ::
  "delimiters \<Rightarrow> bool \<Rightarrow> bool \<Rightarrow> nat \<Rightarrow> nat \<Rightarrow> segment list \<Rightarrow> error + string list" where
  "emit_segments D with_newline with_carriage_return n s_i [] = Inr []"
| "emit_segments D with_newline with_carriage_return n s_i ((segment, data_elements) # rest) =
     (if segment = ''UNA'' then
        (if s_i \<noteq> 0 then Inl AssertionError
         else emit_segments D with_newline with_carriage_return n (Suc s_i) rest)
      else if segment \<notin> set SEGMENTS then Inl (UnknownSegment segment)
      else case emit_segments D with_newline with_carriage_return n (Suc s_i) rest of
             Inl e \<Rightarrow> Inl e
           | Inr strings \<Rightarrow>
               Inr ([segment @ [dataelement_separator D]]
                    @ emit_elements D (elems_of data_elements)
                    @ [[segment_terminator D]]
                    @ (if n - 1 \<noteq> s_i
                       then (if with_carriage_return then [[carriage_return D]] else [])
                            @ (if with_newline then [[newline D]] else [])
                       else [])
                    @ strings))"

definition una_strings :: "delimiters \<Rightarrow> bool \<Rightarrow> bool \<Rightarrow> bool \<Rightarrow> string list" where
  "una_strings D with_newline with_carriage_return with_una =
     (if with_una then
        [''UNA'' @ [component_separator D, dataelement_separator D, decimal_mark D,
                    release_char D, SPACE, segment_terminator D]]
        @ (if with_carriage_return then [[carriage_return D]] else [])
        @ (if with_newline then [[newline D]] else [])
      else [])"

text \<open>The text that is encoded at the end: \<open>''.join(strings)\<close>.\<close>

definition make_text ::
  "segment list \<Rightarrow> delimiters \<Rightarrow> bool \<Rightarrow> bool \<Rightarrow> bool \<Rightarrow> error + string" where
  "make_text segments D with_newline with_carriage_return with_una =
     (if \<not> unique_chars D then Inl AssertionError
      else case emit_segments D with_newline with_carriage_return (length segments) 0 segments of
             Inl e \<Rightarrow> Inl e
           | Inr strings \<Rightarrow>
               Inr (concat (una_strings D with_newline with_carriage_return with_una @ strings)))"

text \<open>
  The syntax identifier of the output: the first component of the first data element of
  the first \<open>UNB\<close> segment, the default without one.
\<close>

fun output_uno :: "string \<Rightarrow> segment list \<Rightarrow> error + string" where
  "output_uno default_encoding [] = Inr default_encoding"
| "output_uno default_encoding ((segment, dataelement) # rest) =
     (if segment = ''UNB'' then
        (case elems_of dataelement of
           [] \<Rightarrow> Inl IndexError
         | [] # _ \<Rightarrow> Inl IndexError
         | (uno # _) # _ \<Rightarrow> Inr uno)
      else output_uno default_encoding rest)"

definition make_edi ::
  "codec \<Rightarrow> segment list \<Rightarrow> delimiters \<Rightarrow> string \<Rightarrow> bool \<Rightarrow> bool \<Rightarrow> bool \<Rightarrow> error + bytes" where
  "make_edi cd segments D default_encoding with_newline with_carriage_return with_una =
     (case make_text segments D with_newline with_carriage_return with_una of
        Inl e \<Rightarrow> Inl e
      | Inr text \<Rightarrow>
          (case output_uno default_encoding segments of
             Inl e \<Rightarrow> Inl e
           | Inr uno \<Rightarrow>
               (case map_of ENCODINGS uno of
                  None \<Rightarrow> Inl KeyError
                | Some name \<Rightarrow>
                    (case encode cd name text of
                       None \<Rightarrow> Inl UnicodeEncodeError
                     | Some data \<Rightarrow> Inr data))))"

section \<open>make_xml and parse_xml\<close>

text \<open>
  An \<open>ElementTree.Element\<close>: tag, text (\<open>None\<close> when absent), attributes and children.
  An attribute value is a string or Python's \<open>None\<close>.
\<close>

datatype element =
  Element (tag: string) (etext: "string option") (attrib: "string \<rightharpoonup> string option")
          (children: "element list")

text \<open>\<open>str(n)\<close> for a natural number; \<open>digit_char\<close> is used below 10 only.\<close>

definition digit_char :: "nat \<Rightarrow> char" where
  "digit_char n = ''0123456789'' ! n"

function str_nat :: "nat \<Rightarrow> string" where
  "str_nat n = (if n < 10 then [digit_char n] else str_nat (n div 10) @ [digit_char (n mod 10)])"
  by pat_completeness auto
termination
  by (relation "measure id") auto

declare str_nat.simps [simp del]

text \<open>The leaves of a data element; an empty component leaves the text unset.\<close>

fun component_elements :: "string \<Rightarrow> nat \<Rightarrow> string list \<Rightarrow> element list" where
  "component_elements data_element_tag c_i [] = []"
| "component_elements data_element_tag c_i (component # rest) =
     Element (data_element_tag @ str_nat c_i)
             (if component \<noteq> [] then Some component else None) Map.empty []
       # component_elements data_element_tag (Suc c_i) rest"

fun data_element_elements :: "string \<Rightarrow> nat \<Rightarrow> string list list \<Rightarrow> element list" where
  "data_element_elements segment d_i [] = []"
| "data_element_elements segment d_i (data_element # rest) =
     Element (segment @ str_nat d_i) None Map.empty
             (component_elements (segment @ str_nat d_i) 0 data_element)
       # data_element_elements segment (Suc d_i) rest"

text \<open>
  \<open>''.join(data_elements)\<close> on the body of a \<open>UNA\<close> segment: a list of characters is
  joined, a list that holds a data element (a list) is a type error.
\<close>

fun una_text :: "body \<Rightarrow> error + string" where
  "una_text (Chars cs) = Inr cs"
| "una_text (Elems []) = Inr []"
| "una_text (Elems (e # es)) = Inl TypeError"

fun segment_elements :: "nat \<Rightarrow> segment list \<Rightarrow> error + element list" where
  "segment_elements s_i [] = Inr []"
| "segment_elements s_i ((segment, data_elements) # rest) =
     (if segment = ''UNA'' then
        (if s_i \<noteq> 0 then Inl AssertionError
         else case una_text data_elements of
                Inl e \<Rightarrow> Inl e
              | Inr t \<Rightarrow>
                  (case segment_elements (Suc s_i) rest of
                     Inl e \<Rightarrow> Inl e
                   | Inr es \<Rightarrow> Inr (Element ''UNA'' (Some t) Map.empty [] # es)))
      else case segment_elements (Suc s_i) rest of
             Inl e \<Rightarrow> Inl e
           | Inr es \<Rightarrow>
               Inr (Element segment None Map.empty
                      (data_element_elements segment 0 (elems_of data_elements)) # es))"

definition make_xml :: "segment list \<Rightarrow> string \<Rightarrow> error + element" where
  "make_xml segments root_tag =
     (case segment_elements 0 segments of
        Inl e \<Rightarrow> Inl e
      | Inr es \<Rightarrow> Inr (Element root_tag None Map.empty es))"

text \<open>\<open>component.text\<close> if it is set and not empty, the empty string otherwise\<close>

definition component_text :: "element \<Rightarrow> string" where
  "component_text component =
     (case etext component of None \<Rightarrow> [] | Some t \<Rightarrow> if t \<noteq> [] then t else [])"

fun parse_elements_xml :: "nat \<Rightarrow> element list \<Rightarrow> error + segment list" where
  "parse_elements_xml e_i [] = Inr []"
| "parse_elements_xml e_i (element # rest) =
     (if tag element = ''UNA'' then
        (if e_i \<noteq> 0 then Inl AssertionError
         else case etext element of
                None \<Rightarrow> Inl TypeError
              | Some t \<Rightarrow>
                  (case parse_elements_xml (Suc e_i) rest of
                     Inl e \<Rightarrow> Inl e
                   | Inr segments \<Rightarrow> Inr ((''UNA'', Chars t) # segments)))
      else case parse_elements_xml (Suc e_i) rest of
             Inl e \<Rightarrow> Inl e
           | Inr segments \<Rightarrow>
               Inr ((tag element,
                     Elems (map (\<lambda>data_element. map component_text (children data_element))
                                (children element))) # segments))"

definition parse_xml :: "element \<Rightarrow> error + segment list" where
  "parse_xml root = parse_elements_xml 0 (children root)"

section \<open>The dictionaries\<close>

text \<open>
  A row of a segment table. \<open>pos\<close> and \<open>representation\<close> may be \<open>None\<close> (JSON
  \<open>null\<close>); \<open>repeat\<close> is \<open>None\<close> for a value that counts as false and otherwise holds
  \<open>str\<close> of the value.
\<close>

record row =
  pos :: "string option"
  code :: string
  name :: string
  representation :: "string option"
  mc :: string
  repeat :: "string option"

record sd_entry =
  sd_name :: string
  sd_description :: string
  sd_table :: "row list"

record code_value =
  cv_name :: string
  cv_description :: string

record ed_entry =
  ed_name :: string
  ed_table :: "(string \<rightharpoonup> code_value) option"

type_synonym sd_dict = "string \<rightharpoonup> sd_entry"
type_synonym ed_dict = "string \<rightharpoonup> ed_entry"

section \<open>report\<close>

text \<open>\<open>s.endswith(suffix)\<close>\<close>

definition endswith :: "string \<Rightarrow> string \<Rightarrow> bool" where
  "endswith s suffix = (length suffix \<le> length s \<and> drop (length s - length suffix) s = suffix)"

text \<open>
  \<open>[r for r in table if r['pos'] and r['pos'].endswith(pos)][0]\<close>; \<open>None\<close> is the
  \<open>IndexError\<close> of an empty list.
\<close>

definition find_cd :: "row list \<Rightarrow> string \<Rightarrow> row option" where
  "find_cd table p =
     (case filter (\<lambda>r. case pos r of None \<Rightarrow> False | Some q \<Rightarrow> q \<noteq> [] \<and> endswith q p) table of
        [] \<Rightarrow> None
      | cd # _ \<Rightarrow> Some cd)"

text \<open>\<open>table.index(cd)\<close>: the index of the first row equal to \<open>cd\<close>.\<close>

fun list_index :: "'a list \<Rightarrow> 'a \<Rightarrow> nat option" where
  "list_index [] x = None"
| "list_index (y # ys) x = (if y = x then Some 0 else map_option Suc (list_index ys x))"

text \<open>
  Character classes of Python on the characters of the model: \<open>\d\<close> of a regular
  expression, \<open>str.isdigit\<close> (which also accepts the superscript digits) and
  \<open>str.isalpha\<close>.
\<close>

definition is_decimal :: "char \<Rightarrow> bool" where
  "is_decimal c = (c \<in> set ''0123456789'')"

definition isdigit :: "string \<Rightarrow> bool" where
  "isdigit s = (s \<noteq> [] \<and> list_all (\<lambda>c. is_decimal c \<or> c \<in> {CHR 0xB2, CHR 0xB3, CHR 0xB9}) s)"

definition is_alpha :: "char \<Rightarrow> bool" where
  "is_alpha c =
     (let n = (of_char c :: nat) in
      (65 \<le> n \<and> n \<le> 90) \<or> (97 \<le> n \<and> n \<le> 122) \<or> n = 170 \<or> n = 181 \<or> n = 186
      \<or> (192 \<le> n \<and> n \<le> 214) \<or> (216 \<le> n \<and> n \<le> 246) \<or> 248 \<le> n)"

definition isalpha :: "string \<Rightarrow> bool" where
  "isalpha s = (s \<noteq> [] \<and> list_all is_alpha s)"

text \<open>
  \<open>int(d)\<close> for a string that passed \<open>isdigit\<close>: the value of a string of decimal digits;
  \<open>None\<close> is the \<open>ValueError\<close> for a superscript digit. The bound that recent
  versions of Python put on the number of digits is not modelled.
\<close>

fun digit_value :: "char \<Rightarrow> nat" where
  "digit_value c = (case list_index ''0123456789'' c of Some n \<Rightarrow> n | None \<Rightarrow> 0)"

definition int_of :: "string \<Rightarrow> nat option" where
  "int_of d =
     (if d \<noteq> [] \<and> list_all is_decimal d
      then Some (foldl (\<lambda>n c. 10 * n + digit_value c) 0 d) else None)"

text \<open>
  \<open>re.match('\d*(\.|,)?\d+', component)\<close>: the component starts with a digit, or with a
  point or comma followed by a digit.
\<close>

fun re_match_numeric :: "string \<Rightarrow> bool" where
  "re_match_numeric [] = False"
| "re_match_numeric [c] = is_decimal c"
| "re_match_numeric (c # c' # s) =
     (is_decimal c \<or> ((c = CHR ''.'' \<or> c = CHR '','') \<and> is_decimal c'))"

text \<open>\<open>representation.split('..')\<close>\<close>

fun split_dots :: "string \<Rightarrow> string list" where
  "split_dots [] = [[]]"
| "split_dots [c] = [[c]]"
| "split_dots (c # c' # s) =
     (if c = CHR ''.'' \<and> c' = CHR ''.'' then [] # split_dots s
      else push c (split_dots (c' # s)))"

text \<open>The type and the digits of a representation such as \<open>an..35\<close> or \<open>n8\<close>.\<close>

definition parse_representation :: "string \<Rightarrow> error + string \<times> string" where
  "parse_representation rep =
     (if index_of ''..'' rep \<noteq> None then
        (case split_dots rep of
           [t, d] \<Rightarrow> Inr (t, d)
         | _ \<Rightarrow> Inl ValueError)
      else
        (let d = filter is_decimal rep in
         case index_of d rep of
           None \<Rightarrow> Inl ValueError
         | Some i \<Rightarrow> Inr (take i rep, d)))"

text \<open>The list \<open>repr_errors\<close> for a non-empty component.\<close>

definition representation_errors :: "string option \<Rightarrow> string \<Rightarrow> error + string list" where
  "representation_errors r_representation component =
     (case r_representation of
        None \<Rightarrow> Inl TypeError
      | Some rep \<Rightarrow>
          (case parse_representation rep of
             Inl e \<Rightarrow> Inl e
           | Inr (t, d) \<Rightarrow>
               if t \<notin> {''a'', ''n'', ''an''} then Inl AssertionError
               else if \<not> isdigit d then Inl AssertionError
               else (case int_of d of
                       None \<Rightarrow> Inl ValueError
                     | Some n \<Rightarrow>
                         Inr ((if t = ''a'' \<and> \<not> isalpha component
                               then [''is not alphanumeric.''] else [])
                              @ (if t = ''n'' \<and> \<not> re_match_numeric component
                                 then [''is not numeric.''] else [])
                              @ (if index_of ''..'' rep \<noteq> None \<and> \<not> length component \<le> n
                                 then [''repr: '' @ rep @ '',  max. len '' @ d] else [])
                              @ (if index_of ''..'' rep = None \<and> length component \<noteq> n
                                 then [''repr: '' @ rep @ '', exact len '' @ d] else [])))))"

text \<open>
  The look-up of a component in the code table of its code: the error lines to append
  and \<open>code_name\<close>. The dictionary is read for a non-empty component only.
\<close>

definition unknown_code_line :: "string \<Rightarrow> string \<Rightarrow> string" where
  "unknown_code_line component c = ''    ERROR: unknown code <'' @ component @ ''> not in ('' @ c @ '')''"

definition code_lookup :: "ed_dict \<Rightarrow> string \<Rightarrow> string \<Rightarrow> error + string list \<times> string option" where
  "code_lookup ed c component =
     (if component \<noteq> [] then
        (case ed c of
           None \<Rightarrow> Inl KeyError
         | Some entry \<Rightarrow>
             (case ed_table entry of
                None \<Rightarrow> Inr ([], None)
              | Some table \<Rightarrow>
                  (case table component of
                     None \<Rightarrow> Inr ([unknown_code_line component c], None)
                   | Some v \<Rightarrow> Inr ([], Some (cv_name v)))))
      else Inr ([], None))"

definition missing_mandatory_line :: "string \<Rightarrow> string \<Rightarrow> string" where
  "missing_mandatory_line c segment =
     CHR 0x0A # ''    Error, component <'' @ c @ ''> in segment '' @ segment"

text \<open>The lines appended for one component and its row \<open>r\<close>; \<open>cd\<close> is the row found by position.\<close>

definition component_lines :: "ed_dict \<Rightarrow> string \<Rightarrow> row \<Rightarrow> row \<Rightarrow> string \<Rightarrow> error + string list" where
  "component_lines ed segment cd r component =
     (let msg = ''    '' @ name r @ '' <'' @ component @ ''> ('' @ code r @ '')'' in
      case code_lookup ed (code r) component of
        Inl e \<Rightarrow> Inl e
      | Inr (errs, code_name) \<Rightarrow>
          (case (if component \<noteq> [] then representation_errors (representation r) component
                 else Inr []) of
             Inl e \<Rightarrow> Inl e
           | Inr repr_errors \<Rightarrow>
               Inr (errs
                    @ [case code_name of
                         None \<Rightarrow> msg
                       | Some n \<Rightarrow> if n \<noteq> [] then msg @ '' '' @ n else msg]
                    @ map (\<lambda>e. ''    ERROR:'' @ e) repr_errors
                    @ (if component = [] \<and> mc r = ''M'' \<and> representation cd \<noteq> None
                       then [missing_mandatory_line (code r) segment] else []))))"

text \<open>
  The loop over \<open>table[start:]\<close>: it stops when the data element has no more components
  or the table no more rows.
\<close>

fun rows_lines :: "ed_dict \<Rightarrow> string \<Rightarrow> row \<Rightarrow> row list \<Rightarrow> string list \<Rightarrow> error + string list" where
  "rows_lines ed segment cd rows [] = Inr []"
| "rows_lines ed segment cd [] (component # components) = Inr []"
| "rows_lines ed segment cd (r # rows) (component # components) =
     (case component_lines ed segment cd r component of
        Inl e \<Rightarrow> Inl e
      | Inr ls \<Rightarrow>
          (case rows_lines ed segment cd rows components of
             Inl e \<Rightarrow> Inl e
           | Inr ls' \<Rightarrow> Inr (ls @ ls')))"

text \<open>The lines of the data element at index \<open>i_d\<close>.\<close>

definition element_lines :: "ed_dict \<Rightarrow> string \<Rightarrow> row list \<Rightarrow> nat \<Rightarrow> string list \<Rightarrow> error + string list" where
  "element_lines ed segment table i_d data_element =
     (case find_cd table (str_nat ((i_d + 1) * 10)) of
        None \<Rightarrow> Inl IndexError
      | Some cd \<Rightarrow>
          (case list_index table cd of
             None \<Rightarrow> Inl ValueError
           | Some start \<Rightarrow>
               if representation cd = None then
                 (case rows_lines ed segment cd (drop (start + 1) table) data_element of
                    Inl e \<Rightarrow> Inl e
                  | Inr ls \<Rightarrow> Inr ((''  '' @ name cd @ '' ('' @ code cd @ '')'') # ls))
               else rows_lines ed segment cd (drop start table) data_element))"

fun elements_lines :: "ed_dict \<Rightarrow> string \<Rightarrow> row list \<Rightarrow> nat \<Rightarrow> string list list \<Rightarrow> error + string list" where
  "elements_lines ed segment table i_d [] = Inr []"
| "elements_lines ed segment table i_d (data_element # rest) =
     (case element_lines ed segment table i_d data_element of
        Inl e \<Rightarrow> Inl e
      | Inr ls \<Rightarrow>
          (case elements_lines ed segment table (Suc i_d) rest of
             Inl e \<Rightarrow> Inl e
           | Inr ls' \<Rightarrow> Inr (ls @ ls')))"

definition undefined_segment_line :: "string \<Rightarrow> nat \<Rightarrow> string" where
  "undefined_segment_line segment s_i =
     ''ERROR: skipping undefined segment: <'' @ segment @ ''> at index '' @ str_nat s_i"

text \<open>
  The lines of the segment at index \<open>s_i\<close>. The first line is the segment emitted on its
  own by \<open>make_edi\<close> with default options and \<open>with_una=False\<close>, decoded as UTF-8.
\<close>

definition segment_lines :: "codec \<Rightarrow> sd_dict \<Rightarrow> ed_dict \<Rightarrow> nat \<Rightarrow> segment \<Rightarrow> error + string list" where
  "segment_lines cd sd ed s_i seg =
     (case sd (fst seg) of
        None \<Rightarrow> Inr (if fst seg \<noteq> ''UNA'' then [undefined_segment_line (fst seg) s_i] else [])
      | Some entry \<Rightarrow>
          (case make_edi cd [seg] default_delimiters ''UNOY'' False False False of
             Inl e \<Rightarrow> Inl e
           | Inr data \<Rightarrow>
               (case decode cd ''utf8'' data of
                  None \<Rightarrow> Inl UnicodeDecodeError
                | Some edi_line \<Rightarrow>
                    (case elements_lines ed (fst seg) (sd_table entry) 0 (elems_of (snd seg)) of
                       Inl e \<Rightarrow> Inl e
                     | Inr ls \<Rightarrow>
                         Inr ([edi_line, replicate (length edi_line) CHR ''-'',
                               sd_name entry @ '' <'' @ fst seg @ ''>'']
                              @ ls @ [[]])))))"

fun report_lines :: "codec \<Rightarrow> sd_dict \<Rightarrow> ed_dict \<Rightarrow> nat \<Rightarrow> segment list \<Rightarrow> error + string list" where
  "report_lines cd sd ed s_i [] = Inr []"
| "report_lines cd sd ed s_i (seg # rest) =
     (case segment_lines cd sd ed s_i seg of
        Inl e \<Rightarrow> Inl e
      | Inr ls \<Rightarrow>
          (case report_lines cd sd ed (Suc s_i) rest of
             Inl e \<Rightarrow> Inl e
           | Inr ls' \<Rightarrow> Inr (ls @ ls')))"

definition report :: "codec \<Rightarrow> segment list \<Rightarrow> sd_dict \<Rightarrow> ed_dict \<Rightarrow> error + string" where
  "report cd segments sd ed =
     (case report_lines cd sd ed 0 segments of
        Inl e \<Rightarrow> Inl e
      | Inr lines \<Rightarrow> Inr (join [CHR 0x0A] lines))"

section \<open>make_edi_xml\<close>








section \<open>Notions used in the statements and proofs\<close>

text \<open>
  The three \<open>replace\<close> calls of the emitter amount to one pass that puts \<open>rc\<close> in front
  of every character of a set \<open>M\<close>.
\<close>

definition esc :: "char set \<Rightarrow> char \<Rightarrow> string \<Rightarrow> string" where
  "esc M rc s = concat (map (\<lambda>c. if c \<in> M then [rc, c] else [c]) s)"

text \<open>
  A string in which every \<open>d\<close> is directly preceded by \<open>rc\<close> and whose last character is
  not \<open>rc\<close>; the flag says whether the character before the string is \<open>rc\<close>.
\<close>

fun bare_free :: "char \<Rightarrow> char \<Rightarrow> bool \<Rightarrow> string \<Rightarrow> bool" where
  "bare_free rc d e [] = (\<not> e)"
| "bare_free rc d e (c # s) = ((c = d \<longrightarrow> e) \<and> bare_free rc d (c = rc) s)"

definition ends_with :: "'a \<Rightarrow> 'a list \<Rightarrow> bool" where
  "ends_with c s = (s \<noteq> [] \<and> last s = c)"


text \<open>
  What the parser reads back from an emitted segment: a segment without data elements
  comes back with one empty data element, a data element without components with one
  empty component.
\<close>

definition canon_elems :: "string list list \<Rightarrow> string list list" where
  "canon_elems es = (if es = [] then [[[]]] else map (\<lambda>e. if e = [] then [[]] else e) es)"

definition canon :: "segment \<Rightarrow> segment" where
  "canon seg = (fst seg, Elems (canon_elems (elems_of (snd seg))))"


definition data_segments :: "segment list \<Rightarrow> segment list" where
  "data_segments segments = filter (\<lambda>seg. fst seg \<noteq> ''UNA'') segments"



text \<open>The pieces of the emitted text.\<close>

definition elem_text :: "delimiters \<Rightarrow> string list \<Rightarrow> string" where
  "elem_text D components = join [component_separator D] (map (escape_component D) components)"

definition body_text :: "delimiters \<Rightarrow> string list list \<Rightarrow> string" where
  "body_text D es = join [dataelement_separator D] (map (elem_text D) es)"







definition eflag :: "char \<Rightarrow> bool \<Rightarrow> string \<Rightarrow> bool" where
  "eflag rc e s = (if s = [] then e else last s = rc)"

fun prepend :: "'a list \<Rightarrow> 'a list list \<Rightarrow> 'a list list" where
  "prepend l [] = [l]"
| "prepend l (p # ps) = (l @ p) # ps"

















text \<open>
  A valid structural form: the body of a \<open>UNA\<close> segment is a list of characters, the body
  of any other segment a list of data elements, and \<open>UNA\<close> occurs at index 0 only.
\<close>

fun well_typed :: "segment \<Rightarrow> bool" where
  "well_typed (segment, Chars cs) = (segment = ''UNA'')"
| "well_typed (segment, Elems es) = (segment \<noteq> ''UNA'')"

definition valid_segments :: "segment list \<Rightarrow> bool" where
  "valid_segments segments =
     (list_all well_typed segments \<and> list_all (\<lambda>seg. fst seg \<noteq> ''UNA'') (tl segments))"

text \<open>
  Dictionaries for the examples: the first rows of the segment table of \<open>NAD\<close>, a
  stand-alone data element followed by a composite, and their codes.
\<close>

definition nad_table :: "row list" where
  "nad_table =
     [\<lparr> pos = Some ''010'', code = ''3035'', name = ''PARTY FUNCTION CODE QUALIFIER'',
        representation = Some ''an..3'', mc = ''M'', repeat = Some ''1'' \<rparr>,
      \<lparr> pos = Some ''020'', code = ''C082'', name = ''PARTY IDENTIFICATION DETAILS'',
        representation = None, mc = ''C'', repeat = Some ''1'' \<rparr>,
      \<lparr> pos = Some [], code = ''3039'', name = ''Party identifier'',
        representation = Some ''an..35'', mc = ''M'', repeat = None \<rparr>,
      \<lparr> pos = Some [], code = ''1131'', name = ''Code list identification code'',
        representation = Some ''an..17'', mc = ''C'', repeat = None \<rparr>]"

definition nad_entry :: sd_entry where
  "nad_entry =
     \<lparr> sd_name = ''NAME AND ADDRESS'', sd_description = ''To specify the name/address'',
       sd_table = nad_table \<rparr>"

definition example_sd :: sd_dict where
  "example_sd = [''NAD'' \<mapsto> nad_entry]"

definition party_codes :: "string \<rightharpoonup> code_value" where
  "party_codes =
     [''BY'' \<mapsto> \<lparr> cv_name = ''Buyer'', cv_description = ''Party to which merchandise is sold'' \<rparr>]"

definition party_entry :: ed_entry where
  "party_entry = \<lparr> ed_name = ''Party function code qualifier'', ed_table = Some party_codes \<rparr>"

definition example_ed :: ed_dict where
  "example_ed =
     [''3035'' \<mapsto> party_entry,
      ''3039'' \<mapsto> \<lparr> ed_name = ''Party identifier'', ed_table = None \<rparr>,
      ''1131'' \<mapsto> \<lparr> ed_name = ''Code list identification code'', ed_table = None \<rparr>]"

text \<open>
  The pairing of the report and of \<open>make_edi_xml\<close>: for the component at index \<open>i_r\<close> of
  the data element at index \<open>i_d\<close>, the row found by position and the row the component
  is paired with (the rows are walked from the one found by position, or from the one
  behind it when that is a composite header).
\<close>

definition paired_row :: "row list \<Rightarrow> nat \<Rightarrow> nat \<Rightarrow> (row \<times> row) option" where
  "paired_row table i_d i_r =
     (case find_cd table (str_nat ((i_d + 1) * 10)) of
        None \<Rightarrow> None
      | Some cd \<Rightarrow>
          (case list_index table cd of
             None \<Rightarrow> None
           | Some start \<Rightarrow>
               (let rows = drop (if representation cd = None then start + 1 else start) table
                in if i_r < length rows then Some (cd, rows ! i_r) else None)))"
section \<open>Escaping, splitting and joining\<close>

lemma esc_simps [simp]:
  "esc M rc [] = []"
  "esc M rc (c # s) = (if c \<in> M then rc # c # esc M rc s else c # esc M rc s)"
  by (simp_all add: esc_def)


lemma esc_empty: "esc {} rc s = s"
  by (induction s) simp_all

lemma replace_char_esc:
  "x \<noteq> rc \<Longrightarrow> x \<notin> M \<Longrightarrow> replace_char x [rc, x] (esc M rc s) = esc (insert x M) rc s"
  by (induction s) (auto simp: replace_char_def)

lemma escape_component_esc:
  assumes "unique_chars D"
  shows "escape_component D c =
         esc {dataelement_separator D, component_separator D, segment_terminator D} (release_char D) c"
proof -
  have "replace_char (dataelement_separator D) [release_char D, dataelement_separator D] c
        = esc {dataelement_separator D} (release_char D) c"
    using assms replace_char_esc [of "dataelement_separator D" "release_char D" "{}" c]
    by (simp add: esc_empty unique_chars_def)
  then show ?thesis
    using assms
    by (auto simp: escape_component_def replace_char_esc unique_chars_def insert_commute)
qed

lemma replace_pair_other [simp]:
  "x \<noteq> a \<Longrightarrow> replace_pair a b (x # s) = x # replace_pair a b s"
  by (cases s) simp_all


lemma replace_pair_sep:
  "x \<noteq> b \<Longrightarrow> x \<noteq> a \<Longrightarrow>
   replace_pair a b (p @ x # t) = replace_pair a b p @ x # replace_pair a b t"
  by (induction a b p rule: replace_pair.induct) auto

lemma replace_pair_join:
  "x \<noteq> b \<Longrightarrow> x \<noteq> a \<Longrightarrow>
   replace_pair a b (join [x] ps) = join [x] (map (replace_pair a b) ps)"
  by (induction "[x]" ps rule: join.induct) (auto simp: replace_pair_sep)

lemma replace_pair_esc:
  "d \<in> M \<Longrightarrow> rc \<notin> M \<Longrightarrow> replace_pair rc d (esc M rc s) = esc (M - {d}) rc s"
proof (induction s)
  case Nil
  then show ?case by simp
next
  case (Cons c s)
  show ?case
  proof (cases "c \<in> M")
    case True
    then have "c \<noteq> rc" using Cons.prems by auto
    with True Cons show ?thesis by (cases "c = d") auto
  next
    case False
    note notM = this
    show ?thesis
    proof (cases "c = rc")
      case False
      with notM Cons show ?thesis by simp
    next
      case True
      have "d \<noteq> rc" using Cons.prems by auto
      show ?thesis
      proof (cases s)
        case Nil
        with notM True show ?thesis by simp
      next
        case (Cons c' s')
        with notM True Cons.IH Cons.prems \<open>d \<noteq> rc\<close> show ?thesis
          by (cases "c' \<in> M") auto
      qed
    qed
  qed
qed

lemma push_nonempty [simp]: "push c ps \<noteq> []"
  by (cases ps) simp_all

lemma split_lb_nonempty [simp]: "split_lb rc d e s \<noteq> []"
  by (cases s) simp_all

lemma split_bare:
  "bare_free rc d e l \<Longrightarrow> split_lb rc d e (l @ d # t) = l # split_lb rc d (d = rc) t"
  by (induction l arbitrary: e) auto

lemma split_bare_end:
  "bare_free rc d e l \<Longrightarrow> split_lb rc d e l = [l]"
  by (induction l arbitrary: e) auto

lemma bare_free_sep:
  "bare_free rc d e p \<Longrightarrow> x \<noteq> d \<Longrightarrow> bare_free rc d e (p @ x # t) = bare_free rc d (x = rc) t"
  by (induction p arbitrary: e) auto


lemma bare_free_esc:
  "d \<in> M \<Longrightarrow> rc \<notin> M \<Longrightarrow> \<not> ends_with rc s \<Longrightarrow> bare_free rc d False (esc M rc s)"
proof -
  assume d: "d \<in> M" and rc: "rc \<notin> M"
  have "\<not> ends_with rc s \<Longrightarrow> (s = [] \<longrightarrow> \<not> e) \<Longrightarrow> bare_free rc d e (esc M rc s)" for e
  proof (induction s arbitrary: e)
    case Nil
    then show ?case by simp
  next
    case (Cons c s)
    have "\<not> ends_with rc s" using Cons.prems(1) by (auto simp: ends_with_def split: if_splits)
    moreover have "s = [] \<longrightarrow> c \<noteq> rc" using Cons.prems(1) by (auto simp: ends_with_def)
    ultimately show ?case using Cons.IH d rc by auto
  qed
  then show "\<not> ends_with rc s \<Longrightarrow> bare_free rc d False (esc M rc s)" by simp
qed

lemma bare_free_join:
  "x \<noteq> d \<Longrightarrow> x \<noteq> rc \<Longrightarrow> \<forall>p \<in> set ps. bare_free rc d False p \<Longrightarrow>
   bare_free rc d False (join [x] ps)"
  by (induction "[x]" ps rule: join.induct) (auto simp: bare_free_sep)

lemma split_join:
  "d \<noteq> rc \<Longrightarrow> ps \<noteq> [] \<Longrightarrow> \<forall>p \<in> set ps. bare_free rc d False p \<Longrightarrow>
   split_lb rc d False (join [d] ps) = ps"
  by (induction "[d]" ps rule: join.induct) (auto simp: split_bare split_bare_end)










text \<open>One data segment: its line, and what the parser reads from it.\<close>

lemma elem_text_esc:
  "unique_chars D \<Longrightarrow>
   elem_text D comps = join [component_separator D]
     (map (esc {dataelement_separator D, component_separator D, segment_terminator D} (release_char D)) comps)"
  by (simp add: elem_text_def escape_component_esc cong: map_cong)

lemma bare_free_elem:
  assumes "d \<in> M" "rc \<notin> M" "cs \<noteq> d" "cs \<noteq> rc" "\<forall>c \<in> set comps. \<not> ends_with rc c"
  shows "bare_free rc d False (join [cs] (map (esc M rc) comps))"
  using assms by (intro bare_free_join) (auto simp: bare_free_esc)


lemma split_components:
  assumes "cs \<noteq> rc" "\<forall>c \<in> set comps. \<not> ends_with rc c"
  shows "map (replace_pair rc cs) (split_lb rc cs False (join [cs] (map (esc {cs} rc) comps)))
         = (if comps = [] then [[]] else comps)"
proof (cases "comps = []")
  case True
  then show ?thesis by simp
next
  case False
  have "split_lb rc cs False (join [cs] (map (esc {cs} rc) comps)) = map (esc {cs} rc) comps"
    using assms False by (intro split_join) (auto simp: bare_free_esc)
  moreover have "replace_pair rc cs (esc {cs} rc c) = c" for c
    using assms(1) replace_pair_esc [of cs "{cs}" rc c] by (simp add: esc_empty)
  ultimately show ?thesis using False by (simp add: map_idI)
qed

lemma parse_elements_body:
  assumes u: "unique_chars D"
      and same: "release_char D' = release_char D" "component_separator D' = component_separator D"
                "dataelement_separator D' = dataelement_separator D"
      and tails: "\<forall>e \<in> set es. \<forall>c \<in> set e. \<not> ends_with (release_char D) c"
  shows "parse_elements D' (replace_pair (release_char D) (segment_terminator D) (body_text D es))
         = canon_elems es"
proof -
  define rc cs ds st where "rc = release_char D" and "cs = component_separator D"
    and "ds = dataelement_separator D" and "st = segment_terminator D"
  have ne: "rc \<noteq> cs" "rc \<noteq> ds" "rc \<noteq> st" "cs \<noteq> ds" "cs \<noteq> st" "ds \<noteq> st"
    using u by (auto simp: unique_chars_def rc_def cs_def ds_def st_def)
  have m3: "{ds, cs, st} - {st} = {ds, cs}" and m2: "{ds, cs} - {ds} = {cs}"
    using ne by auto
  have body: "body_text D es = join [ds] (map (\<lambda>comps. join [cs] (map (esc {ds, cs, st} rc) comps)) es)"
  proof -
    have "elem_text D = (\<lambda>comps. join [cs] (map (esc {ds, cs, st} rc) comps))"
      using u by (intro ext) (simp add: elem_text_esc rc_def cs_def ds_def st_def)
    then show ?thesis by (simp add: body_text_def ds_def)
  qed
  have step1: "replace_pair rc st (body_text D es)
               = join [ds] (map (\<lambda>comps. join [cs] (map (esc {ds, cs} rc) comps)) es)"
    using ne by (simp add: body replace_pair_join replace_pair_esc m3 comp_def)
  have step2: "map (replace_pair rc ds)
                 (split_lb rc ds False (join [ds] (map (\<lambda>comps. join [cs] (map (esc {ds, cs} rc) comps)) es)))
               = (if es = [] then [[]] else map (\<lambda>comps. join [cs] (map (esc {cs} rc) comps)) es)"
  proof (cases "es = []")
    case True
    then show ?thesis by simp
  next
    case False
    have "split_lb rc ds False (join [ds] (map (\<lambda>comps. join [cs] (map (esc {ds, cs} rc) comps)) es))
          = map (\<lambda>comps. join [cs] (map (esc {ds, cs} rc) comps)) es"
      using ne False tails
      by (intro split_join) (auto simp: rc_def [symmetric] intro!: bare_free_elem)
    then show ?thesis
      using ne False by (simp add: replace_pair_join replace_pair_esc m2 comp_def)
  qed
  have step3: "map (replace_pair rc cs) (split_lb rc cs False (join [cs] (map (esc {cs} rc) e)))
               = (if e = [] then [[]] else e)" if "e \<in> set es" for e
    using split_components [of cs rc e] ne tails that by (simp add: rc_def)
  show ?thesis
    unfolding parse_elements_def re_split_def same
    unfolding rc_def [symmetric] cs_def [symmetric] ds_def [symmetric] st_def [symmetric]
    by (simp add: step1 step2 canon_elems_def step3 comp_def cong: map_cong)
qed





lemma escape_component_Nil [simp]: "escape_component D [] = []"
  by (simp add: escape_component_def replace_char_def)




lemma data_segments_canon:
  "data_segments (map canon segs) = map canon segs" if "\<forall>seg \<in> set segs. fst seg \<noteq> ''UNA''"
  using that by (induction segs) (simp_all add: data_segments_def canon_def)








lemma esc_protected:
  "rc \<notin> M \<Longrightarrow> i < length (esc M rc s) \<Longrightarrow> esc M rc s ! i \<in> M \<Longrightarrow>
   0 < i \<and> esc M rc s ! (i - 1) = rc"
proof (induction s arbitrary: i)
  case Nil
  then show ?case by simp
next
  case (Cons c s)
  show ?case
  proof (cases "c \<in> M")
    case True
    show ?thesis
    proof (cases "i < 2")
      case True
      with \<open>c \<in> M\<close> Cons.prems show ?thesis by (cases i) auto
    next
      case False
      then obtain j where j: "i = Suc (Suc j)" by (metis less_2_cases_iff not0_implies_Suc)
      with \<open>c \<in> M\<close> Cons.prems have "j < length (esc M rc s)" "esc M rc s ! j \<in> M" by auto
      from Cons.IH [OF Cons.prems(1) this] j \<open>c \<in> M\<close> show ?thesis
        by (cases j) auto
    qed
  next
    case False
    show ?thesis
    proof (cases i)
      case 0
      with False Cons.prems show ?thesis by simp
    next
      case (Suc j)
      with False Cons.prems have "j < length (esc M rc s)" "esc M rc s ! j \<in> M" by auto
      from Cons.IH [OF Cons.prems(1) this] Suc False show ?thesis
        by (cases j) auto
    qed
  qed
qed







section \<open>Reading an emitted text whose lines run on\<close>

lemma eflag_simps [simp]:
  "eflag rc e [] = e"
  "eflag rc e (c # s) = eflag rc (c = rc) s"
  by (simp_all add: eflag_def)

lemma eflag_append: "eflag rc e (a @ b) = eflag rc (eflag rc e a) b"
  by (induction a arbitrary: e) simp_all








lemma prepend_nonempty [simp]: "prepend l ps \<noteq> []"
  by (cases ps) simp_all





































lemma esc_Nil_iff [simp]: "(esc M rc s = []) = (s = [])"
  by (cases s) simp_all










section \<open>The syntax identifier of the parse\<close>





section \<open>Finding the syntax identifier in the emitted bytes\<close>

lemma index_of_Nil [simp]: "p \<noteq> [] \<Longrightarrow> index_of p [] = None"
  by simp












lemma encoded_drop:
  "drop (length (concat (map f (take i s)))) (concat (map f s)) = concat (map f (drop i s))"
proof -
  have "concat (map f s) = concat (map f (take i s)) @ concat (map f (drop i s))"
    by (metis append_take_drop_id concat_append map_append)
  then show ?thesis by simp
qed










section \<open>The XML mapping\<close>

lemma component_elements_text:
  "map component_text (component_elements p c_i components) = components"
  by (induction components arbitrary: c_i) (simp_all add: component_text_def)

lemma data_element_elements_text:
  "map (\<lambda>data_element. map component_text (children data_element))
       (data_element_elements segment d_i es) = es"
  by (induction es arbitrary: d_i) (simp_all add: component_elements_text)

lemma parse_segment_elements_data:
  "list_all well_typed segments \<Longrightarrow> list_all (\<lambda>seg. fst seg \<noteq> ''UNA'') segments \<Longrightarrow>
   \<exists>es. segment_elements s_i segments = Inr es \<and> parse_elements_xml s_i es = Inr segments"
proof (induction segments arbitrary: s_i)
  case Nil
  then show ?case by simp
next
  case (Cons seg segments)
  obtain segment b where seg: "seg = (segment, b)" by (cases seg)
  with Cons.prems obtain elems where b: "b = Elems elems" and t: "segment \<noteq> ''UNA''"
    by (cases b) auto
  from Cons.IH [of "Suc s_i"] Cons.prems obtain es where
    "segment_elements (Suc s_i) segments = Inr es" "parse_elements_xml (Suc s_i) es = Inr segments"
    by auto
  with seg b t show ?case
    by (simp add: data_element_elements_text)
qed

lemma component_elements_etext:
  "map etext (component_elements p c_i components)
   = map (\<lambda>c. if c = [] then None else Some c) components"
  by (induction components arbitrary: c_i) simp_all

section \<open>The lines of the report\<close>

lemma report_lines_nth:
  "report_lines cd sd ed i segments = Inr ls \<Longrightarrow> k < length segments \<Longrightarrow>
   \<exists>l. segment_lines cd sd ed (i + k) (segments ! k) = Inr l \<and> set l \<subseteq> set ls"
proof (induction segments arbitrary: i k ls)
  case Nil
  then show ?case by simp
next
  case (Cons seg segments)
  from Cons.prems(1) obtain l ls' where
    l: "segment_lines cd sd ed i seg = Inr l"
    and r: "report_lines cd sd ed (Suc i) segments = Inr ls'"
    and ls: "ls = l @ ls'"
    by (auto split: sum.splits)
  show ?case
  proof (cases k)
    case 0
    with l ls show ?thesis by simp
  next
    case (Suc k')
    with Cons.prems(2) have "k' < length segments" by simp
    from Cons.IH [OF r this] Suc ls show ?thesis by auto
  qed
qed

lemma elements_lines_nth:
  "elements_lines ed segment table i es = Inr ls \<Longrightarrow> k < length es \<Longrightarrow>
   \<exists>l. element_lines ed segment table (i + k) (es ! k) = Inr l \<and> set l \<subseteq> set ls"
proof (induction es arbitrary: i k ls)
  case Nil
  then show ?case by simp
next
  case (Cons e es)
  from Cons.prems(1) obtain l ls' where
    l: "element_lines ed segment table i e = Inr l"
    and r: "elements_lines ed segment table (Suc i) es = Inr ls'"
    and ls: "ls = l @ ls'"
    by (auto split: sum.splits)
  show ?case
  proof (cases k)
    case 0
    with l ls show ?thesis by simp
  next
    case (Suc k')
    with Cons.prems(2) have "k' < length es" by simp
    from Cons.IH [OF r this] Suc ls show ?thesis by auto
  qed
qed

lemma rows_lines_nth:
  "rows_lines ed segment cd rows components = Inr ls \<Longrightarrow>
   k < length components \<Longrightarrow> k < length rows \<Longrightarrow>
   \<exists>l. component_lines ed segment cd (rows ! k) (components ! k) = Inr l \<and> set l \<subseteq> set ls"
proof (induction ed segment cd rows components arbitrary: k ls rule: rows_lines.induct)
  case (1 ed segment cd rows)
  then show ?case by simp
next
  case (2 ed segment cd component components)
  then show ?case by simp
next
  case (3 ed segment cd r rows component components)
  from "3.prems"(1) obtain l ls' where
    l: "component_lines ed segment cd r component = Inr l"
    and r: "rows_lines ed segment cd rows components = Inr ls'"
    and ls: "ls = l @ ls'"
    by (auto split: sum.splits)
  show ?case
  proof (cases k)
    case 0
    with l ls show ?thesis by simp
  next
    case (Suc k')
    with "3.prems" have "k' < length components" "k' < length rows" by simp_all
    from "3.IH" [OF l r this] Suc ls show ?thesis by auto
  qed
qed

lemma component_lines_empty:
  "component_lines ed segment cd r [] =
     Inr ((''    '' @ name r @ '' <> ('' @ code r @ '')'')
          # (if mc r = ''M'' \<and> representation cd \<noteq> None
             then [missing_mandatory_line (code r) segment] else []))"
  by (simp add: component_lines_def code_lookup_def)

lemma segment_lines_known:
  assumes "segment_lines cd sd ed s_i seg = Inr l" "sd (fst seg) = Some entry"
  shows "\<exists>ls. elements_lines ed (fst seg) (sd_table entry) 0 (elems_of (snd seg)) = Inr ls
              \<and> set ls \<subseteq> set l"
  using assms by (auto simp: segment_lines_def split: sum.splits option.splits)

lemma element_lines_simple:
  assumes "element_lines ed segment table i_d data_element = Inr l"
      and "find_cd table (str_nat ((i_d + 1) * 10)) = Some cd"
      and "list_index table cd = Some start"
  shows "\<exists>ls. rows_lines ed segment cd
                 (drop (if representation cd = None then start + 1 else start) table)
                 data_element = Inr ls
              \<and> set ls \<subseteq> set l"
proof (cases "representation cd")
  case None
  with assms show ?thesis
    by (auto simp: element_lines_def split: sum.splits)
next
  case (Some rep)
  with assms show ?thesis
    by (simp add: element_lines_def)
qed

text \<open>The lines of the component at one place of the message are lines of the report.\<close>

lemma report_component_lines:
  assumes rep: "report cd segments sd ed = Inr t"
      and seg: "s_i < length segments" "segments ! s_i = (segment, b)" "sd segment = Some entry"
      and el: "i_d < length (elems_of b)"
      and cd: "find_cd (sd_table entry) (str_nat ((i_d + 1) * 10)) = Some cd0"
              "list_index (sd_table entry) cd0 = Some start"
      and rows: "rows = drop (if representation cd0 = None then start + 1 else start) (sd_table entry)"
      and ir: "i_r < length (elems_of b ! i_d)" "i_r < length rows"
  shows "\<exists>lines l. t = join [CHR 0x0A] lines
           \<and> component_lines ed segment cd0 (rows ! i_r) (elems_of b ! i_d ! i_r) = Inr l
           \<and> set l \<subseteq> set lines"
proof -
  from rep obtain lines where lines: "report_lines cd sd ed 0 segments = Inr lines"
    and t: "t = join [CHR 0x0A] lines"
    by (auto simp: report_def split: sum.splits)
  from report_lines_nth [OF lines seg(1)] seg(2) obtain l1 where
    l1: "segment_lines cd sd ed s_i (segment, b) = Inr l1" "set l1 \<subseteq> set lines"
    by auto
  from segment_lines_known [OF l1(1)] seg(3) obtain l2 where
    l2: "elements_lines ed segment (sd_table entry) 0 (elems_of b) = Inr l2" "set l2 \<subseteq> set l1"
    by auto
  from elements_lines_nth [OF l2(1) el] obtain l3 where
    l3: "element_lines ed segment (sd_table entry) i_d (elems_of b ! i_d) = Inr l3"
        "set l3 \<subseteq> set l2"
    by auto
  from element_lines_simple [OF l3(1) cd] rows obtain l4 where
    l4: "rows_lines ed segment cd0 rows (elems_of b ! i_d) = Inr l4" "set l4 \<subseteq> set l3"
    by auto
  from rows_lines_nth [OF l4(1) ir] obtain l where
    "component_lines ed segment cd0 (rows ! i_r) (elems_of b ! i_d ! i_r) = Inr l" "set l \<subseteq> set l4"
    by auto
  with l1(2) l2(2) l3(2) l4(2) t show ?thesis by blast
qed

lemma report_paired_lines:
  assumes rep: "report cd segments sd ed = Inr t"
      and seg: "s_i < length segments" "segments ! s_i = (segment, b)" "sd segment = Some entry"
      and el: "i_d < length (elems_of b)" "i_r < length (elems_of b ! i_d)"
      and pr: "paired_row (sd_table entry) i_d i_r = Some (cd0, r)"
  shows "\<exists>lines l. t = join [CHR 0x0A] lines
           \<and> component_lines ed segment cd0 r (elems_of b ! i_d ! i_r) = Inr l
           \<and> set l \<subseteq> set lines"
proof -
  from pr obtain start where
    cd: "find_cd (sd_table entry) (str_nat ((i_d + 1) * 10)) = Some cd0"
        "list_index (sd_table entry) cd0 = Some start"
    and len: "i_r < length (drop (if representation cd0 = None then start + 1 else start)
                                 (sd_table entry))"
    and r: "r = drop (if representation cd0 = None then start + 1 else start) (sd_table entry) ! i_r"
    by (auto simp: paired_row_def Let_def split: option.splits if_splits)
  from report_component_lines [OF rep seg el(1) cd refl el(2) len] r show ?thesis
    by simp
qed




lemma length_component_elements [simp]:
  "length (component_elements p c_i components) = length components"
  by (induction components arbitrary: c_i) simp_all




text \<open>Unfolding the report on the examples.\<close>

lemmas report_eval =
  report_def segment_lines_def element_lines_def component_lines_def code_lookup_def
  representation_errors_def parse_representation_def find_cd_def endswith_def
  str_nat.simps digit_char_def isdigit_def is_decimal_def int_of_def isalpha_def
  missing_mandatory_line_def unknown_code_line_def undefined_segment_line_def
  make_edi_def make_text_def unique_chars_def default_delimiters_def SEGMENTS_def
  una_strings_def escape_component_def replace_char_def ENCODINGS_def
  ascii_codec_def is_ascii_def example_sd_def example_ed_def nad_entry_def nad_table_def
  party_entry_def party_codes_def paired_row_def
section \<open>The claims\<close>

subsection \<open>C1: parsing what the emitter wrote\<close>



subsection \<open>C2: escaping\<close>

text \<open>
  C2 claims that \<open>make_edi\<close> escapes every occurrence of the four meta-characters,
  the release character among them, and that \<open>parse_edi\<close> removes every escape. The
  emitter has no \<open>replace\<close> for the release character: a component \<open>?\<close> is written as
  it is, escapes the terminator behind it, and the segment is lost.
\<close>

theorem escape_release_char_counterexample:
  "escape_component default_delimiters ''?'' = ''?''
   \<and> make_edi ascii_codec [(''FTX'', Elems [[''?'']])] default_delimiters ''UNOY'' False False True
       = Inr (''UNA:+.? '' @ CHR 0x27 # ''FTX+?'' @ [CHR 0x27])
   \<and> parse_edi ascii_codec (''UNA:+.? '' @ CHR 0x27 # ''FTX+?'' @ [CHR 0x27])
         default_delimiters ''UNOY''
       = Inr [(''UNA'', Chars [CHR '':'', CHR ''+'', CHR ''.'', CHR ''?'', CHR '' '', CHR 0x27])]"
  by (simp add: make_edi_def make_text_def unique_chars_def default_delimiters_def SEGMENTS_def
        una_strings_def SPACE_def escape_component_def replace_char_def ENCODINGS_def
        ascii_codec_def is_ascii_def parse_edi_def decode_content_def sniff_encoding_def
        parse_content_def una_delimiters_def tokenise_def re_sub_def re_split_def parse_line_def
        parse_elements_def)

text \<open>
  C2, amended: under distinct delimiters \<open>make_edi\<close> puts the release character in
  front of every component separator, data-element separator and segment terminator of
  a component, and in front of nothing else (the release character itself is written
  unescaped); in the escaped component each of these three characters directly follows
  a release character; the parser's three \<open>replace\<close> calls give the component back,
  and so do its splits and replacements together when the component does not end with
  the release character.
\<close>

theorem escape_component_separators:
  assumes "unique_chars D"
  shows "escape_component D c
           = concat (map (\<lambda>x. if x \<in> {dataelement_separator D, component_separator D,
                                        segment_terminator D}
                                then [release_char D, x] else [x]) c)
         \<and> (\<forall>i < length (escape_component D c).
               escape_component D c ! i \<in> {dataelement_separator D, component_separator D,
                                             segment_terminator D}
               \<longrightarrow> 0 < i \<and> escape_component D c ! (i - 1) = release_char D)
         \<and> replace_pair (release_char D) (component_separator D)
              (replace_pair (release_char D) (dataelement_separator D)
                 (replace_pair (release_char D) (segment_terminator D) (escape_component D c))) = c
         \<and> (\<not> ends_with (release_char D) c \<longrightarrow>
              parse_elements D
                (replace_pair (release_char D) (segment_terminator D) (escape_component D c))
              = [[c]])"
proof -
  define rc cs ds st where "rc = release_char D" and "cs = component_separator D"
    and "ds = dataelement_separator D" and "st = segment_terminator D"
  have ne: "rc \<noteq> cs" "rc \<noteq> ds" "rc \<noteq> st" "cs \<noteq> ds" "cs \<noteq> st" "ds \<noteq> st"
    using assms by (auto simp: unique_chars_def rc_def cs_def ds_def st_def)
  have e: "escape_component D c = esc {ds, cs, st} rc c"
    using assms by (simp add: escape_component_esc rc_def cs_def ds_def st_def)
  have m: "{ds, cs, st} - {st} = {ds, cs}" "{ds, cs} - {ds} = {cs}" "{cs} - {cs} = {}"
    using ne by auto
  have 1: "escape_component D c
           = concat (map (\<lambda>x. if x \<in> {ds, cs, st} then [rc, x] else [x]) c)"
    by (simp add: e esc_def)
  have 2: "\<forall>i < length (escape_component D c).
             escape_component D c ! i \<in> {ds, cs, st}
             \<longrightarrow> 0 < i \<and> escape_component D c ! (i - 1) = rc"
    unfolding e using ne esc_protected [of rc "{ds, cs, st}" _ c] by blast
  have 3: "replace_pair rc cs (replace_pair rc ds (replace_pair rc st (escape_component D c))) = c"
    using ne by (simp add: e replace_pair_esc m esc_empty)
  have 4: "parse_elements D (replace_pair rc st (escape_component D c)) = [[c]]"
    if "\<not> ends_with rc c"
  proof -
    have "body_text D [[c]] = escape_component D c"
      by (simp add: body_text_def elem_text_def)
    with parse_elements_body [OF assms, of D "[[c]]"] that show ?thesis
      by (simp add: canon_elems_def rc_def st_def)
  qed
  from 1 2 3 4 show ?thesis
    unfolding rc_def cs_def ds_def st_def by blast
qed

theorem escape_component_separators_witness:
  "unique_chars default_delimiters
   \<and> \<not> ends_with (release_char default_delimiters) (''A+B:C'' @ CHR 0x27 # ''D?E'')
   \<and> escape_component default_delimiters (''A+B:C'' @ CHR 0x27 # ''D?E'')
       = ''A?+B?:C?'' @ CHR 0x27 # ''D?E''
   \<and> parse_elements default_delimiters
        (replace_pair (release_char default_delimiters) (segment_terminator default_delimiters)
           (escape_component default_delimiters (''A+B:C'' @ CHR 0x27 # ''D?E'')))
       = [[''A+B:C'' @ CHR 0x27 # ''D?E'']]"
proof -
  have u: "unique_chars default_delimiters"
    by (simp add: unique_chars_def default_delimiters_def)
  have t: "\<not> ends_with (release_char default_delimiters) (''A+B:C'' @ CHR 0x27 # ''D?E'')"
    by (simp add: ends_with_def default_delimiters_def)
  have e: "escape_component default_delimiters (''A+B:C'' @ CHR 0x27 # ''D?E'')
           = ''A?+B?:C?'' @ CHR 0x27 # ''D?E''"
    using escape_component_separators [OF u, of "''A+B:C'' @ CHR 0x27 # ''D?E''"]
    by (simp add: default_delimiters_def)
  from escape_component_separators [OF u, of "''A+B:C'' @ CHR 0x27 # ''D?E''"] t u e
  show ?thesis by blast
qed
subsection \<open>C3: emitting what the parser read\<close>



subsection \<open>C4: the XML mapping\<close>

text \<open>
  C4: for every valid structural form \<open>S\<close>, with or without empty components and a
  \<open>UNA\<close> segment at index 0, \<open>make_xml\<close> succeeds and \<open>parse_xml(make_xml(S)) = S\<close>;
  the leaves built for the components carry the component as text, no text for the
  empty string, and a leaf without text is read back as the empty string.
\<close>

theorem parse_xml_make_xml:
  assumes "valid_segments segments"
  shows "(\<exists>root. make_xml segments root_tag = Inr root \<and> parse_xml root = Inr segments)
         \<and> map etext (component_elements data_element_tag c_i components)
             = map (\<lambda>c. if c = [] then None else Some c) components
         \<and> component_text (Element leaf_tag None attributes []) = []"
proof -
  have "\<exists>root. make_xml segments root_tag = Inr root \<and> parse_xml root = Inr segments"
  proof (cases segments)
    case Nil
    then show ?thesis by (simp add: make_xml_def parse_xml_def)
  next
    case (Cons seg rest)
    obtain segment b where seg: "seg = (segment, b)" by (cases seg)
    from assms Cons have wt: "well_typed seg" "list_all well_typed rest"
      and nu: "list_all (\<lambda>seg. fst seg \<noteq> ''UNA'') rest"
      by (simp_all add: valid_segments_def)
    from parse_segment_elements_data [OF wt(2) nu, of "Suc 0"] obtain es where
      es: "segment_elements (Suc 0) rest = Inr es" "parse_elements_xml (Suc 0) es = Inr rest"
      by auto
    show ?thesis
    proof (cases b)
      case (Chars cs)
      with wt(1) seg have "segment = ''UNA''" by simp
      with Cons seg Chars es show ?thesis
        by (simp add: make_xml_def parse_xml_def)
    next
      case (Elems elems)
      with wt(1) seg have "segment \<noteq> ''UNA''" by simp
      with Cons seg Elems es show ?thesis
        by (simp add: make_xml_def parse_xml_def data_element_elements_text)
    qed
  qed
  then show ?thesis
    by (simp add: component_elements_etext component_text_def)
qed

theorem parse_xml_make_xml_witness:
  "valid_segments
     [(''UNA'', Chars [CHR '':'', CHR ''+'', CHR ''.'', CHR ''?'', CHR '' '', CHR 0x27]),
      (''NAD'', Elems [[''BY''], [''31-424-2022'', '''', ''16'']])]
   \<and> (\<exists>root.
          make_xml
            [(''UNA'', Chars [CHR '':'', CHR ''+'', CHR ''.'', CHR ''?'', CHR '' '', CHR 0x27]),
             (''NAD'', Elems [[''BY''], [''31-424-2022'', '''', ''16'']])] ''EDIFACT'' = Inr root
          \<and> parse_xml root
              = Inr [(''UNA'', Chars [CHR '':'', CHR ''+'', CHR ''.'', CHR ''?'', CHR '' '', CHR 0x27]),
                     (''NAD'', Elems [[''BY''], [''31-424-2022'', '''', ''16'']])])"
proof -
  have v: "valid_segments
     [(''UNA'', Chars [CHR '':'', CHR ''+'', CHR ''.'', CHR ''?'', CHR '' '', CHR 0x27]),
      (''NAD'', Elems [[''BY''], [''31-424-2022'', '''', ''16'']])]"
    by (simp add: valid_segments_def)
  from parse_xml_make_xml [OF v, of "''EDIFACT''"] v show ?thesis by blast
qed
subsection \<open>C5: changing the delimiters\<close>



subsection \<open>C6: the syntax identifier of a message that starts with UNB\<close>

text \<open>
  C6: whenever the input contains \<open>UNB\<close>, at any position, the syntax identifier is read
  from the next \<open>UNO\<close>; the default is for inputs without \<open>UNB\<close>. The source tests the
  truth value of the index, so a \<open>UNB\<close> at position 0 counts as missing: the message
  below announces \<open>UNOC\<close> and is read with the default \<open>UNOY\<close>, while the same message
  behind a \<open>UNA\<close> segment is read with \<open>UNOC\<close>.
\<close>

theorem sniff_encoding_unb_first:
  "sniff_encoding ascii_codec ''UNOY'' (''UNB+UNOC:3+SENDER+RECEIVER'' @ [CHR 0x27]) = Inr ''UNOY''
   \<and> sniff_encoding ascii_codec ''UNOY''
         (''UNA:+.? '' @ CHR 0x27 # ''UNB+UNOC:3+SENDER+RECEIVER'' @ [CHR 0x27]) = Inr ''UNOC''"
  by (simp add: sniff_encoding_def ascii_codec_def is_ascii_def)
subsection \<open>C7: missing mandatory components\<close>

text \<open>
  C7 claims a missing-mandatory line for every row marked \<open>M\<close> whose component is
  empty, inside a composite or not. The source appends the line only if the row found
  by position is not a composite header: in the report below the party identifier
  (3039, marked \<open>M\<close>, inside the composite C082) is empty and no such line appears.
\<close>

theorem missing_mandatory_composite_counterexample:
  "report ascii_codec [(''NAD'', Elems [[''BY''], ['''']])] example_sd example_ed
   = Inr (join [CHR 0x0A]
       [''NAD+BY+'' @ [CHR 0x27], ''--------'', ''NAME AND ADDRESS <NAD>'',
        ''    PARTY FUNCTION CODE QUALIFIER <BY> (3035) Buyer'',
        ''  PARTY IDENTIFICATION DETAILS (C082)'',
        ''    Party identifier <> (3039)'', ''''])
   \<and> paired_row nad_table 1 0 = Some (nad_table ! 1, nad_table ! 2)
   \<and> mc (nad_table ! 2) = ''M'' \<and> code (nad_table ! 2) = ''3039''"
  by (simp add: report_eval)

text \<open>
  C7, amended: when \<open>report\<close> returns, for every segment whose tag is in the segment
  dictionary and every data element whose row found by position is not a composite
  header (it has a representation), every empty component that is paired with a row
  marked \<open>M\<close> has its missing-mandatory line among the lines of the returned text.
\<close>

theorem missing_mandatory_reported:
  assumes "report cd segments sd ed = Inr t"
      and "s_i < length segments" and "segments ! s_i = (segment, b)"
      and "sd segment = Some entry"
      and "i_d < length (elems_of b)" and "i_r < length (elems_of b ! i_d)"
      and "paired_row (sd_table entry) i_d i_r = Some (cd0, r)"
      and "representation cd0 \<noteq> None" and "mc r = ''M''"
      and "elems_of b ! i_d ! i_r = []"
  shows "\<exists>lines. t = join [CHR 0x0A] lines
           \<and> missing_mandatory_line (code r) segment \<in> set lines"
proof -
  from report_paired_lines [OF assms(1-7)] obtain lines l where
    "t = join [CHR 0x0A] lines"
    "component_lines ed segment cd0 r (elems_of b ! i_d ! i_r) = Inr l"
    "set l \<subseteq> set lines"
    by blast
  with assms(8-10) show ?thesis
    by (auto simp: component_lines_empty)
qed

theorem missing_mandatory_reported_witness:
  "report ascii_codec [(''NAD'', Elems [[''''], [''X'']])] example_sd example_ed
   = Inr (join [CHR 0x0A]
       [''NAD++X'' @ [CHR 0x27], ''-------'', ''NAME AND ADDRESS <NAD>'',
        ''    PARTY FUNCTION CODE QUALIFIER <> (3035)'',
        CHR 0x0A # ''    Error, component <3035> in segment NAD'',
        ''  PARTY IDENTIFICATION DETAILS (C082)'',
        ''    Party identifier <X> (3039)'', ''''])
   \<and> example_sd ''NAD'' = Some nad_entry
   \<and> paired_row (sd_table nad_entry) 0 0 = Some (nad_table ! 0, nad_table ! 0)
   \<and> representation (nad_table ! 0) \<noteq> None
   \<and> mc (nad_table ! 0) = ''M''
   \<and> (\<exists>lines.
          join [CHR 0x0A]
            [''NAD++X'' @ [CHR 0x27], ''-------'', ''NAME AND ADDRESS <NAD>'',
             ''    PARTY FUNCTION CODE QUALIFIER <> (3035)'',
             CHR 0x0A # ''    Error, component <3035> in segment NAD'',
             ''  PARTY IDENTIFICATION DETAILS (C082)'',
             ''    Party identifier <X> (3039)'', '''']
          = join [CHR 0x0A] lines
          \<and> missing_mandatory_line (code (nad_table ! 0)) ''NAD'' \<in> set lines)"
proof -
  let ?S = "[(''NAD'', Elems [[''''], [''X'']])]"
  have h1: "report ascii_codec ?S example_sd example_ed
   = Inr (join [CHR 0x0A]
       [''NAD++X'' @ [CHR 0x27], ''-------'', ''NAME AND ADDRESS <NAD>'',
        ''    PARTY FUNCTION CODE QUALIFIER <> (3035)'',
        CHR 0x0A # ''    Error, component <3035> in segment NAD'',
        ''  PARTY IDENTIFICATION DETAILS (C082)'',
        ''    Party identifier <X> (3039)'', ''''])"
    by (simp add: report_eval)
  have h2: "0 < length ?S" by simp
  have h3: "?S ! 0 = (''NAD'', Elems [[''''], [''X'']])" by simp
  have h4: "example_sd ''NAD'' = Some nad_entry" by (simp add: example_sd_def)
  have h5: "0 < length (elems_of (Elems [[''''], [''X'']]))" by simp
  have h6: "0 < length (elems_of (Elems [[''''], [''X'']]) ! 0)" by simp
  have h7: "paired_row (sd_table nad_entry) 0 0 = Some (nad_table ! 0, nad_table ! 0)"
    by (simp add: paired_row_def find_cd_def endswith_def nad_entry_def nad_table_def
          str_nat.simps digit_char_def)
  have h8: "representation (nad_table ! 0) \<noteq> None" by (simp add: nad_table_def)
  have h9: "mc (nad_table ! 0) = ''M''" by (simp add: nad_table_def)
  have h10: "elems_of (Elems [[''''], [''X'']]) ! 0 ! 0 = []" by simp
  from missing_mandatory_reported [OF h1 h2 h3 h4 h5 h6 h7 h8 h9 h10] h1 h4 h7 h8 h9
  show ?thesis by blast
qed
subsection \<open>C8: dictionary mismatches\<close>



subsection \<open>C9: lines shorter than four characters\<close>

text \<open>
  C9 claims that \<open>parse_edi\<close> fails with the out-of-range access to the fourth
  character on every input whose tokenisation yields a line of fewer than four
  characters that does not start with \<open>UNA\<close>. It fails otherwise when a line in front
  of the short one is malformed: the loop raises the error of that line and never
  reaches the short one. In both inputs below the second line is empty; the first line
  has an unknown tag in one and a wrong fourth character in the other, and \<open>parse_edi\<close>
  raises a syntax error.
\<close>

theorem short_line_other_error_counterexample:
  "tokenise default_delimiters (''XYZ+A'' @ [CHR 0x27, CHR 0x27]) = Inr [''XYZ+A'', []]
   \<and> parse_edi ascii_codec (''XYZ+A'' @ [CHR 0x27, CHR 0x27]) default_delimiters ''UNOY''
       = Inl (UnknownSegment ''XYZ'')
   \<and> tokenise default_delimiters (''FTX*A'' @ [CHR 0x27, CHR 0x27]) = Inr [''FTX*A'', []]
   \<and> parse_edi ascii_codec (''FTX*A'' @ [CHR 0x27, CHR 0x27]) default_delimiters ''UNOY''
       = Inl (ExpectedSeparator 1)"
  by (simp add: parse_edi_def decode_content_def sniff_encoding_def ENCODINGS_def
        ascii_codec_def is_ascii_def parse_content_def una_delimiters_def unique_chars_def
        default_delimiters_def tokenise_def re_sub_def re_split_def parse_line_def
        SEGMENTS_def)


subsection \<open>C10: the body of an input UNA segment\<close>

text \<open>
  C10: the bytes written by \<open>make_edi\<close> do not depend on the body of a \<open>UNA\<close> segment
  at index 0: two segment lists that differ only there give the same result, under
  every codec, delimiter record and choice of flags.
\<close>

theorem make_edi_una_body:
  "make_edi cd ((''UNA'', body1) # rest) D enc with_newline with_carriage_return with_una
   = make_edi cd ((''UNA'', body2) # rest) D enc with_newline with_carriage_return with_una"
proof -
  have uno: "output_uno enc ((''UNA'', b) # rest) = output_uno enc rest" for b
    by simp
  have t: "make_text ((''UNA'', b) # rest) D with_newline with_carriage_return with_una
           = (if \<not> unique_chars D then Inl AssertionError
              else case emit_segments D with_newline with_carriage_return
                          (Suc (length rest)) (Suc 0) rest of
                     Inl e \<Rightarrow> Inl e
                   | Inr strings \<Rightarrow>
                       Inr (concat (una_strings D with_newline with_carriage_return with_una
                                    @ strings)))" for b
    by (simp add: make_text_def)
  show ?thesis
    unfolding make_edi_def t uno ..
qed

end
